theory Spec2Isabelle
  imports Main "HOL-Library.Word"
begin

unbundle bit_operations_syntax

section \<open>Values, exceptions and observable effects\<close>

text \<open>
  The handler of \<^verbatim>\<open>hasscomfoair.py\<close> keeps one Python dict, \<^verbatim>\<open>self._cache\<close>. Its keys
  are the integer command ids of raw frames and the two strings \<^verbatim>\<open>"speed"\<close> and
  \<^verbatim>\<open>"state"\<close>; its values are the \<^verbatim>\<open>bytes\<close> payload of a frame or a string.
\<close>

type_synonym byte = "8 word"

datatype pyval = PyInt int | PyBytes "byte list" | PyStr string

datatype key = KInt int | KStr string

type_synonym cache = "key \<rightharpoonup> pyval"

datatype exn = IndexError | AssertionError | ValueError | MqttError

text \<open>
  What a handler does to the outside world, in program order: a \<^verbatim>\<open>logger.info\<close> call
  (format string and arguments, unformatted), an MQTT \<^verbatim>\<open>publish(topic, payload, retain)\<close>
  (qos is 0 everywhere), and a device control call \<^verbatim>\<open>ca.set_speed(pos)\<close>.
\<close>

datatype effect =
    Info string "pyval list"
  | Publish string pyval bool
  | SetSpeed nat

type_synonym outcome = "exn + unit"

text \<open>Python truthiness of the result of \<^verbatim>\<open>dict.get\<close>: \<^verbatim>\<open>None\<close>, \<^verbatim>\<open>0\<close>, \<^verbatim>\<open>b""\<close> and \<^verbatim>\<open>""\<close> are falsy.\<close>

fun truthy :: "pyval option \<Rightarrow> bool" where
  "truthy None = False"
| "truthy (Some (PyInt i)) = (i \<noteq> 0)"
| "truthy (Some (PyBytes bs)) = (bs \<noteq> [])"
| "truthy (Some (PyStr s)) = (s \<noteq> [])"

text \<open>Python list indexing \<^verbatim>\<open>xs[i]\<close>: a negative index counts from the end, anything else out of range raises.\<close>

definition list_getitem :: "'a list \<Rightarrow> int \<Rightarrow> exn + 'a" where
  "list_getitem xs i =
     (if 0 \<le> i \<and> i < int (length xs) then Inr (xs ! nat i)
      else if - int (length xs) \<le> i \<and> i < 0 then Inr (xs ! nat (int (length xs) + i))
      else Inl IndexError)"

text \<open>Python \<^verbatim>\<open>xs.index(x)\<close>: the first position of \<^verbatim>\<open>x\<close>, \<^verbatim>\<open>ValueError\<close> when there is none.\<close>

fun list_index :: "'a list \<Rightarrow> 'a \<Rightarrow> exn + nat" where
  "list_index [] x = Inl ValueError"
| "list_index (y # ys) x =
     (if y = x then Inr 0
      else case list_index ys x of Inl e \<Rightarrow> Inl e | Inr n \<Rightarrow> Inr (Suc n))"

section \<open>Topics and vocabularies\<close>

definition TOPIC_TEMP_OUTSIDE :: string where "TOPIC_TEMP_OUTSIDE = ''comfoair/temp/outside''"
definition TOPIC_AIRFLOW_EXHAUST :: string where "TOPIC_AIRFLOW_EXHAUST = ''comfoair/airflow/exhaust''"
definition TOPIC_AIRFLOW_SUPPLY :: string where "TOPIC_AIRFLOW_SUPPLY = ''comfoair/airflow/supply''"
definition TOPIC_FAN_SPEED :: string where "TOPIC_FAN_SPEED = ''comfoair/fan/speed''"
definition TOPIC_FAN_STATE :: string where "TOPIC_FAN_STATE = ''comfoair/fan/state''"
definition TOPIC_AVAILABILITY :: string where "TOPIC_AVAILABILITY = ''comfoair/LWT''"
definition TOPIC_SET_FAN_SPEED :: string where "TOPIC_SET_FAN_SPEED = ''comfoair/fan/speed/set''"
definition TOPIC_SET_FAN_STATE :: string where "TOPIC_SET_FAN_STATE = ''comfoair/fan/state/set''"

definition SPEED_VALUES :: "string list" where
  "SPEED_VALUES = [''auto'', ''off'', ''low'', ''medium'', ''high'']"

definition STATE_VALUES :: "string list" where
  "STATE_VALUES = [''on'', ''off'']"

section \<open>The segment decoder\<close>

text \<open>
  \<^verbatim>\<open>cc_segments\<close>: the labels of the eight bits of each of the ten display cells. The
  degree sign of cell 9 is written as its two UTF-8 bytes.
\<close>

definition cc_segments :: "string list list" where
  "cc_segments =
    [ [''Sa'', ''Su'', ''Mo'', ''Tu'', ''We'', ''Th'', ''Fri'', '':''],
      [''1ADEG'', ''1B'', ''1C'', ''AUTO'', ''MANUAL'', ''FILTER'', ''I'', ''E''],
      [''2A'', ''2B'', ''2C'', ''2D'', ''2E'', ''2F'', ''2G'', ''Ventilation''],
      [''3A'', ''3B'', ''3C'', ''3D'', ''3E'', ''3F'', ''3G'', ''Extractor hood''],
      [''4A'', ''4B'', ''4C'', ''4D'', ''4E'', ''4F'', ''4G'', ''Pre-heater''],
      [''5A'', ''5B'', ''5C'', ''5D'', ''5E'', ''5F'', ''5G'', ''Frost''],
      [''6A'', ''6B'', ''6C'', ''6D'', ''6E'', ''6F'', ''6G'', ''EWT''],
      [''7A'', ''7B'', ''7C'', ''7D'', ''7E'', ''7F'', ''7G'', ''Post-heater''],
      [''8A'', ''8B'', ''8C'', ''8D'', ''8E'', ''8F'', ''8G'', ''.''],
      [[CHR 0xC2, CHR 0xB0], ''Bypass'', ''9AEF'', ''9G'', ''9D'', ''House'', ''Supply air'',
       ''Exhaust air''] ]"

text \<open>\<^verbatim>\<open>ssd_chr\<close>: the seven-segment patterns that stand for a character, in the order of the source.\<close>

definition ssd_chr :: "(byte \<times> string) list" where
  "ssd_chr =
    [ (0x00, '' ''), (0x3F, ''0''), (0x06, ''1''), (0x5B, ''2''), (0x4F, ''3''),
      (0x66, ''4''), (0x6D, ''5''), (0x7D, ''6''), (0x07, ''7''), (0x7F, ''8''),
      (0x6F, ''9''), (0x77, ''A''), (0x7C, ''B''), (0x39, ''C''), (0x5E, ''D''),
      (0x79, ''E''), (0x71, ''F'') ]"

text \<open>The digit pattern computed for cell 1 (\<^verbatim>\<open>0b1011001\<close> is \<^verbatim>\<open>0x59\<close>).\<close>

definition digit_pos1 :: "byte \<Rightarrow> byte" where
  "digit_pos1 val = (let digit = val AND 6 in if val AND 1 \<noteq> 0 then digit OR 0x59 else digit)"

text \<open>The digit pattern computed for cells 2 to 8.\<close>

definition digit_pos2_8 :: "byte \<Rightarrow> byte" where
  "digit_pos2_8 val = val AND 0x7f"

text \<open>
  The digit pattern computed for cell 9 (\<^verbatim>\<open>0b0110001\<close> is \<^verbatim>\<open>0x31\<close>, \<^verbatim>\<open>0b1000000\<close> is
  \<^verbatim>\<open>0x40\<close>, \<^verbatim>\<open>0b0001000\<close> is \<^verbatim>\<open>0x08\<close>).
\<close>

definition digit_pos9 :: "byte \<Rightarrow> byte" where
  "digit_pos9 val =
     (let digit = 0;
          digit = (if val AND 4 \<noteq> 0 then digit OR 0x31 else digit);
          digit = (if val AND 8 \<noteq> 0 then digit OR 0x40 else digit);
          digit = (if val AND 0x10 \<noteq> 0 then digit OR 0x08 else digit)
      in digit)"

text \<open>\<^verbatim>\<open>assert digit in ssd_chr\<close> followed by \<^verbatim>\<open>ssd_chr[digit]\<close>.\<close>

definition ssd_lookup :: "byte \<Rightarrow> exn + string" where
  "ssd_lookup digit =
     (case map_of ssd_chr digit of None \<Rightarrow> Inl AssertionError | Some ch \<Rightarrow> Inr ch)"

text \<open>
  \<^verbatim>\<open>for i in is: if val & (1 << i): segments.append(cc_segments[pos][i])\<close>: the labels of
  the lit bits among \<^verbatim>\<open>is\<close>, in that order.
\<close>

definition lit :: "nat \<Rightarrow> byte \<Rightarrow> nat list \<Rightarrow> string list" where
  "lit pos val ns = map (\<lambda>i. cc_segments ! pos ! i) (filter (\<lambda>i. val AND push_bit i 1 \<noteq> 0) ns)"

text \<open>One iteration of the loop over \<^verbatim>\<open>enumerate(data)\<close>: the labels it appends, or the failed assertion.\<close>

definition decode_cell :: "nat \<Rightarrow> byte \<Rightarrow> exn + string list" where
  "decode_cell pos val =
     (if pos = 1 then
        (case ssd_lookup (digit_pos1 val) of
           Inl e \<Rightarrow> Inl e
         | Inr ch \<Rightarrow> Inr (ch # lit pos val [3..<8]))
      else if 2 \<le> pos \<and> pos \<le> 8 then
        (case ssd_lookup (digit_pos2_8 val) of
           Inl e \<Rightarrow> Inl e
         | Inr ch \<Rightarrow> Inr (ch # lit pos val [7..<8]))
      else if pos = 9 then
        (case ssd_lookup (digit_pos9 val) of
           Inl e \<Rightarrow> Inl e
         | Inr ch \<Rightarrow> Inr (ch # lit pos val [0, 1, 5, 6, 7] @ lit pos val [8..<8]))
      else Inr (lit pos val [0..<8]))"

fun decode_cells :: "(nat \<times> byte) list \<Rightarrow> string list \<Rightarrow> exn + string list" where
  "decode_cells [] segments = Inr segments"
| "decode_cells ((pos, val) # rest) segments =
     (case decode_cell pos val of
        Inl e \<Rightarrow> Inl e
      | Inr new \<Rightarrow> decode_cells rest (segments @ new))"

text \<open>Python \<^verbatim>\<open>sep.join(xs)\<close>.\<close>

fun join :: "string \<Rightarrow> string list \<Rightarrow> string" where
  "join sep [] = []"
| "join sep [x] = x"
| "join sep (x # y # ys) = x @ sep @ join sep (y # ys)"

text \<open>
  \<^verbatim>\<open>decode_display_data\<close>: the function returns nothing; what it does is log the joined
  labels, and only when the length of the data is the number of cells. An input of any
  other length falls through the \<^verbatim>\<open>if\<close> with no effect at all.
\<close>

definition decode_display_data :: "byte list \<Rightarrow> exn + effect list" where
  "decode_display_data data =
     (if length cc_segments = length data then
        (case decode_cells (zip [0..<length data] data) [] of
           Inl e \<Rightarrow> Inl e
         | Inr segments \<Rightarrow> Inr [Info ''Segments: [%s]'' [PyStr (join ''|'' segments)]])
      else Inr [])"

section \<open>The handler\<close>

text \<open>
  Every handler takes the cache and returns how it ended (\<open>Inr ()\<close>, or the exception that
  left it), the cache as it is then, and the effects it had up to that point. The MQTT
  transport is taken as working inside a handler: \<^verbatim>\<open>publish\<close> returns.
\<close>

type_synonym result = "outcome \<times> cache \<times> effect list"

definition invalidate_cache :: "cache \<Rightarrow> cache" where
  "invalidate_cache c = Map.empty"

definition event :: "cache \<Rightarrow> int \<times> byte list \<Rightarrow> result" where
  "event c ev =
     (case ev of (cmd, data) \<Rightarrow>
        if c (KInt cmd) = Some (PyBytes data) then (Inr (), c, [])
        else
          (let c' = c(KInt cmd \<mapsto> PyBytes data);
               out = [Info ''Msg %#x: [%s]'' [PyInt cmd, PyBytes data]]
           in if cmd = 0x3c then
                (case decode_display_data data of
                   Inl e \<Rightarrow> (Inl e, c', out)
                 | Inr logs \<Rightarrow> (Inr (), c', out @ logs))
              else (Inr (), c', out)))"

definition temp_outside_event :: "cache \<Rightarrow> pyval \<Rightarrow> pyval \<Rightarrow> result" where
  "temp_outside_event c attribute val =
     (Inr (), c,
      [Info ''Outside temperature: %s'' [val],
       Info ''Publish outside temperature: {%s/%s}'' [PyStr TOPIC_TEMP_OUTSIDE, val],
       Publish TOPIC_TEMP_OUTSIDE val False])"

definition airflow_exhaust :: "cache \<Rightarrow> pyval \<Rightarrow> pyval \<Rightarrow> result" where
  "airflow_exhaust c attribute val =
     (Inr (), c,
      [Info ''Airflow exhaust: %s'' [val],
       Info ''Publish airflow exhaust: {%s/%s}'' [PyStr TOPIC_AIRFLOW_EXHAUST, val],
       Publish TOPIC_AIRFLOW_EXHAUST val False])"

definition airflow_supply :: "cache \<Rightarrow> pyval \<Rightarrow> pyval \<Rightarrow> result" where
  "airflow_supply c attribute val =
     (Inr (), c,
      [Info ''Airflow supply: %s'' [val],
       Info ''Publish airflow supply: {%s/%s}'' [PyStr TOPIC_AIRFLOW_SUPPLY, val],
       Publish TOPIC_AIRFLOW_SUPPLY val False])"

definition fan_speed_mode :: "cache \<Rightarrow> pyval \<Rightarrow> int \<Rightarrow> result" where
  "fan_speed_mode c attribute val =
     (let out = [Info ''Fan speed: %s'' [PyInt val]] in
      case list_getitem SPEED_VALUES val of
        Inl e \<Rightarrow> (Inl e, c, out)
      | Inr speed \<Rightarrow>
          if speed = ''off'' then
            (let out = out @ [Info ''Publish fan state: {%s/%s}'' [PyStr TOPIC_FAN_STATE, PyStr ''off'']];
                 c = c(KStr ''state'' \<mapsto> PyStr ''off'');
                 out = out @ [Publish TOPIC_FAN_STATE (PyStr ''off'') True]
             in (Inr (), c(KStr ''speed'' \<mapsto> PyStr speed), out))
          else if speed \<noteq> ''auto'' then
            (let (c, out) =
                   (if \<not> truthy (c (KStr ''speed'')) \<or> c (KStr ''speed'') = Some (PyStr ''off'')
                    then (c(KStr ''state'' \<mapsto> PyStr ''on''),
                          out @ [Info ''Publish fan state: {%s/%s}'' [PyStr TOPIC_FAN_STATE, PyStr ''on''],
                                 Publish TOPIC_FAN_STATE (PyStr ''on'') True])
                    else (c, out));
                 out = out @ [Info ''Publish fan state: {%s/%s}'' [PyStr TOPIC_FAN_SPEED, PyStr speed],
                              Publish TOPIC_FAN_SPEED (PyStr speed) False]
             in (Inr (), c(KStr ''speed'' \<mapsto> PyStr speed), out))
          else (Inr (), c(KStr ''speed'' \<mapsto> PyStr speed), out))"

definition cooked_event :: "cache \<Rightarrow> pyval \<Rightarrow> pyval \<Rightarrow> result" where
  "cooked_event c attribute val = (Inr (), c, [Info ''Attribute %s: %s'' [attribute, val]])"

definition handle_set_speed :: "cache \<Rightarrow> string \<Rightarrow> result" where
  "handle_set_speed c val =
     (if val \<notin> set SPEED_VALUES then
        (Inr (), c, [Info ''Invalid fan speed value reveived: {value}'' [PyStr val]])
      else
        (case list_index SPEED_VALUES val of
           Inl e \<Rightarrow> (Inl e, c, [])
         | Inr pos \<Rightarrow>
             if pos \<ge> 1 \<and> pos \<le> 4 then (Inr (), c, [SetSpeed pos]) else (Inr (), c, [])))"

definition handle_set_fan_state :: "cache \<Rightarrow> string \<Rightarrow> result" where
  "handle_set_fan_state c val =
     (if val \<notin> set STATE_VALUES then
        (Inr (), c, [Info ''Invalid fan state value reveived: {value}'' [PyStr val]])
      else if val = ''off'' then (Inr (), c, [SetSpeed 1])
      else
        (let speed = c (KStr ''speed'') in
         if \<not> truthy speed \<or> speed = Some (PyStr ''off'') then (Inr (), c, [SetSpeed 2])
         else (Inr (), c, [])))"

section \<open>Sequences of calls\<close>

text \<open>
  The device library calls a listener once for each event, in arrival order, on the same
  handler object: the cache left by one call is the cache the next call starts from, and
  the effects follow each other.
\<close>

fun feed :: "(cache \<Rightarrow> 'a \<Rightarrow> result) \<Rightarrow> cache \<Rightarrow> 'a list \<Rightarrow> cache \<times> effect list" where
  "feed h c [] = (c, [])"
| "feed h c (x # xs) =
     (case h c x of (r, c', out) \<Rightarrow>
        (case feed h c' xs of (c'', out') \<Rightarrow> (c'', out @ out')))"

text \<open>The values the handler ever stores under \<^verbatim>\<open>"speed"\<close>: nothing yet, or a member of the enumeration.\<close>

definition speed_ok :: "cache \<Rightarrow> bool" where
  "speed_ok c =
     (case c (KStr ''speed'') of
        None \<Rightarrow> True
      | Some (PyStr s) \<Rightarrow> s \<in> set SPEED_VALUES
      | Some _ \<Rightarrow> False)"

text \<open>The digit pattern the decoder computes for a cell, for the cells that show a digit.\<close>

definition computed_digit :: "nat \<Rightarrow> byte \<Rightarrow> byte option" where
  "computed_digit pos val =
     (if pos = 1 then Some (digit_pos1 val)
      else if 2 \<le> pos \<and> pos \<le> 8 then Some (digit_pos2_8 val)
      else if pos = 9 then Some (digit_pos9 val)
      else None)"

section \<open>The supervisor: one pass through the body of the reconnect loop\<close>

text \<open>
  \<^verbatim>\<open>mqtt_connection\<close> runs \<^verbatim>\<open>while True: try: ... except MqttError: ...\<close>. The body of the
  \<^verbatim>\<open>try\<close>, up to the point where the bridge is wired, is a straight line of steps: build
  the client, build a new \<^verbatim>\<open>ComfoAirHandler\<close> (whose constructor sets \<^verbatim>\<open>_cache = {}\<close>),
  set the last will, connect, publish the four discovery documents of \<^verbatim>\<open>send_ha_config\<close>,
  publish \<^verbatim>\<open>Online\<close>, attach the listeners of the new handler, log. The steps that await
  the transport can raise \<^verbatim>\<open>MqttError\<close>.
\<close>

datatype sup_step =
    NewClient
  | NewHandler
  | WillSet
  | Connect
  | SendConfig nat
  | PublishOnline
  | AddListeners
  | LogConnected

definition try_body :: "sup_step list" where
  "try_body =
     [NewClient, NewHandler, WillSet, Connect,
      SendConfig 0, SendConfig 1, SendConfig 2, SendConfig 3,
      PublishOnline, AddListeners, LogConnected]"

text \<open>
  The part of the supervisor's state the steps act on: the cache of the handler bound to
  \<^verbatim>\<open>h\<close> (\<open>None\<close> while \<^verbatim>\<open>h\<close> is \<^verbatim>\<open>None\<close>), and whether the listeners of that handler are
  attached to the device.
\<close>

record bridge =
  h_cache :: "cache option"
  attached :: bool

fun awaits_transport :: "sup_step \<Rightarrow> bool" where
  "awaits_transport Connect = True"
| "awaits_transport (SendConfig n) = True"
| "awaits_transport PublishOnline = True"
| "awaits_transport s = False"

fun exec_step :: "sup_step \<Rightarrow> bridge \<Rightarrow> bridge" where
  "exec_step NewHandler b = b\<lparr>h_cache := Some Map.empty\<rparr>"
| "exec_step AddListeners b = b\<lparr>attached := True\<rparr>"
| "exec_step s b = b"

text \<open>
  Running the steps. \<open>fail\<close> says how many transport operations succeed before one raises
  \<^verbatim>\<open>MqttError\<close> (\<open>None\<close>: none raises). The result is how the run ended, the state then,
  and the steps that were completed, in order.
\<close>

fun run_steps :: "nat option \<Rightarrow> sup_step list \<Rightarrow> bridge \<Rightarrow> outcome \<times> bridge \<times> sup_step list" where
  "run_steps fail [] b = (Inr (), b, [])"
| "run_steps fail (s # ss) b =
     (if awaits_transport s \<and> fail = Some 0 then (Inl MqttError, b, [])
      else
        (let fail' = (if awaits_transport s then map_option (\<lambda>n. n - 1) fail else fail)
         in case run_steps fail' ss (exec_step s b) of
              (r, b', tr) \<Rightarrow> (r, b', s # tr)))"

definition mqtt_setup :: "nat option \<Rightarrow> bridge \<Rightarrow> outcome \<times> bridge \<times> sup_step list" where
  "mqtt_setup fail b = run_steps fail try_body b"

section \<open>Lookups in the speed enumeration\<close>

lemma speed_lookup:
  "list_getitem SPEED_VALUES v =
     (if v = 0 \<or> v = -5 then Inr ''auto''
      else if v = 1 \<or> v = -4 then Inr ''off''
      else if v = 2 \<or> v = -3 then Inr ''low''
      else if v = 3 \<or> v = -2 then Inr ''medium''
      else if v = 4 \<or> v = -1 then Inr ''high''
      else Inl IndexError)"
proof -
  have "v < -5 \<or> v = -5 \<or> v = -4 \<or> v = -3 \<or> v = -2 \<or> v = -1
    \<or> v = 0 \<or> v = 1 \<or> v = 2 \<or> v = 3 \<or> v = 4 \<or> v > 4"
    by arith
  then show ?thesis
    by (elim disjE) (simp_all add: list_getitem_def SPEED_VALUES_def)
qed


section \<open>The command translator\<close>

text \<open>
  C5. The fan-state-set command. A payload that is neither \<^verbatim>\<open>on\<close> nor \<^verbatim>\<open>off\<close> is logged
  and dropped: no control call. The payload \<^verbatim>\<open>off\<close> issues exactly one control call,
  \<^verbatim>\<open>set_speed(1)\<close>, whatever the cache holds. The payload \<^verbatim>\<open>on\<close> issues exactly one control
  call, \<^verbatim>\<open>set_speed(2)\<close>, when the cached speed is absent or \<^verbatim>\<open>off\<close>, and no control call
  for every other speed the handler can have cached.
\<close>

theorem handle_set_fan_state_spec:
  "(v \<notin> {''on'', ''off''} \<longrightarrow>
      handle_set_fan_state c v =
        (Inr (), c, [Info ''Invalid fan state value reveived: {value}'' [PyStr v]]))
   \<and> handle_set_fan_state c ''off'' = (Inr (), c, [SetSpeed 1])
   \<and> (c (KStr ''speed'') = None \<or> c (KStr ''speed'') = Some (PyStr ''off'') \<longrightarrow>
        handle_set_fan_state c ''on'' = (Inr (), c, [SetSpeed 2]))
   \<and> (speed_ok c \<and> c (KStr ''speed'') \<noteq> None \<and> c (KStr ''speed'') \<noteq> Some (PyStr ''off'') \<longrightarrow>
        handle_set_fan_state c ''on'' = (Inr (), c, []))"
  by (auto simp: handle_set_fan_state_def STATE_VALUES_def speed_ok_def SPEED_VALUES_def
           split: option.splits pyval.splits)

text \<open>
  The four cases at concrete inputs: an unknown payload, \<^verbatim>\<open>off\<close> while the cached speed is
  \<^verbatim>\<open>medium\<close>, \<^verbatim>\<open>on\<close> on an empty cache, and \<^verbatim>\<open>on\<close> while the cached speed is \<^verbatim>\<open>medium\<close>.
\<close>

theorem handle_set_fan_state_spec_witness:
  "handle_set_fan_state Map.empty ''toggle'' =
     (Inr (), Map.empty, [Info ''Invalid fan state value reveived: {value}'' [PyStr ''toggle'']])
   \<and> handle_set_fan_state [KStr ''speed'' \<mapsto> PyStr ''medium''] ''off'' =
       (Inr (), [KStr ''speed'' \<mapsto> PyStr ''medium''], [SetSpeed 1])
   \<and> handle_set_fan_state Map.empty ''on'' = (Inr (), Map.empty, [SetSpeed 2])
   \<and> handle_set_fan_state [KStr ''speed'' \<mapsto> PyStr ''medium''] ''on'' =
       (Inr (), [KStr ''speed'' \<mapsto> PyStr ''medium''], [])"
  using handle_set_fan_state_spec [of "''toggle''" Map.empty]
    handle_set_fan_state_spec [of "''on''" "[KStr ''speed'' \<mapsto> PyStr ''medium'']"]
  by (simp add: speed_ok_def SPEED_VALUES_def)



text \<open>
  C10. Neither command handler writes the cache: whatever the payload, the cache after the
  call is the cache before it. So a second \<^verbatim>\<open>on\<close> command, with no fan-speed event from
  the device in between, meets the same cached speed as the first: with the cached speed
  absent or \<^verbatim>\<open>off\<close>, each of the two issues \<^verbatim>\<open>set_speed(2)\<close>.
\<close>

theorem command_handlers_keep_cache:
  "fst (snd (handle_set_speed c v)) = c
   \<and> fst (snd (handle_set_fan_state c v)) = c
   \<and> (c (KStr ''speed'') = None \<or> c (KStr ''speed'') = Some (PyStr ''off'') \<longrightarrow>
        feed handle_set_fan_state c [''on'', ''on''] = (c, [SetSpeed 2, SetSpeed 2]))"
  by (auto simp: handle_set_speed_def handle_set_fan_state_def STATE_VALUES_def Let_def
           split: sum.splits)

theorem command_handlers_keep_cache_witness:
  "feed handle_set_fan_state Map.empty [''on'', ''on''] = (Map.empty, [SetSpeed 2, SetSpeed 2])"
  using command_handlers_keep_cache [of Map.empty]
  by simp

section \<open>The derived-state translator\<close>

text \<open>The five ways through \<^verbatim>\<open>fan_speed_mode\<close>, by the speed the raw value resolves to.\<close>

lemma fan_speed_mode_error:
  "list_getitem SPEED_VALUES v = Inl e \<Longrightarrow>
   fan_speed_mode c a v = (Inl e, c, [Info ''Fan speed: %s'' [PyInt v]])"
  by (simp add: fan_speed_mode_def)

lemma fan_speed_mode_off:
  "list_getitem SPEED_VALUES v = Inr ''off'' \<Longrightarrow>
   fan_speed_mode c a v =
     (Inr (), c(KStr ''state'' \<mapsto> PyStr ''off'', KStr ''speed'' \<mapsto> PyStr ''off''),
      [Info ''Fan speed: %s'' [PyInt v],
       Info ''Publish fan state: {%s/%s}'' [PyStr TOPIC_FAN_STATE, PyStr ''off''],
       Publish TOPIC_FAN_STATE (PyStr ''off'') True])"
  by (simp add: fan_speed_mode_def)

lemma fan_speed_mode_auto:
  "list_getitem SPEED_VALUES v = Inr ''auto'' \<Longrightarrow>
   fan_speed_mode c a v =
     (Inr (), c(KStr ''speed'' \<mapsto> PyStr ''auto''), [Info ''Fan speed: %s'' [PyInt v]])"
  by (simp add: fan_speed_mode_def)

lemma fan_speed_mode_rising:
  "list_getitem SPEED_VALUES v = Inr s \<Longrightarrow> s \<noteq> ''off'' \<Longrightarrow> s \<noteq> ''auto'' \<Longrightarrow>
   \<not> truthy (c (KStr ''speed'')) \<or> c (KStr ''speed'') = Some (PyStr ''off'') \<Longrightarrow>
   fan_speed_mode c a v =
     (Inr (), c(KStr ''state'' \<mapsto> PyStr ''on'', KStr ''speed'' \<mapsto> PyStr s),
      [Info ''Fan speed: %s'' [PyInt v],
       Info ''Publish fan state: {%s/%s}'' [PyStr TOPIC_FAN_STATE, PyStr ''on''],
       Publish TOPIC_FAN_STATE (PyStr ''on'') True,
       Info ''Publish fan state: {%s/%s}'' [PyStr TOPIC_FAN_SPEED, PyStr s],
       Publish TOPIC_FAN_SPEED (PyStr s) False])"
  by (simp add: fan_speed_mode_def)

lemma fan_speed_mode_running:
  "list_getitem SPEED_VALUES v = Inr s \<Longrightarrow> s \<noteq> ''off'' \<Longrightarrow> s \<noteq> ''auto'' \<Longrightarrow>
   truthy (c (KStr ''speed'')) \<Longrightarrow> c (KStr ''speed'') \<noteq> Some (PyStr ''off'') \<Longrightarrow>
   fan_speed_mode c a v =
     (Inr (), c(KStr ''speed'' \<mapsto> PyStr s),
      [Info ''Fan speed: %s'' [PyInt v],
       Info ''Publish fan state: {%s/%s}'' [PyStr TOPIC_FAN_SPEED, PyStr s],
       Publish TOPIC_FAN_SPEED (PyStr s) False])"
  by (simp add: fan_speed_mode_def)

lemma topics_differ: "TOPIC_FAN_STATE \<noteq> TOPIC_FAN_SPEED"
  by (simp add: TOPIC_FAN_STATE_def TOPIC_FAN_SPEED_def)

text \<open>
  C9. A fan-speed event whose raw value resolves to \<^verbatim>\<open>auto\<close> publishes nothing, neither on
  the state topic nor on the speed topic (its only effect is the log line), and stores
  \<^verbatim>\<open>auto\<close> under \<^verbatim>\<open>"speed"\<close>, leaving every other key as it was. The next event is judged
  against that baseline: a following \<^verbatim>\<open>low\<close>, \<^verbatim>\<open>medium\<close> or \<^verbatim>\<open>high\<close> publishes the speed
  only.
\<close>

theorem fan_speed_mode_auto_silent:
  "list_getitem SPEED_VALUES v = Inr ''auto'' \<Longrightarrow>
     fan_speed_mode c a v =
       (Inr (), c(KStr ''speed'' \<mapsto> PyStr ''auto''), [Info ''Fan speed: %s'' [PyInt v]])
     \<and> (\<forall>s v'. list_getitem SPEED_VALUES v' = Inr s \<and> s \<in> {''low'', ''medium'', ''high''} \<longrightarrow>
          fan_speed_mode (fst (snd (fan_speed_mode c a v))) a v' =
            (Inr (), c(KStr ''speed'' \<mapsto> PyStr s),
             [Info ''Fan speed: %s'' [PyInt v'],
              Info ''Publish fan state: {%s/%s}'' [PyStr TOPIC_FAN_SPEED, PyStr s],
              Publish TOPIC_FAN_SPEED (PyStr s) False]))"
  by (auto simp: fan_speed_mode_auto fan_speed_mode_running)

theorem fan_speed_mode_auto_silent_witness:
  "fan_speed_mode [KStr ''speed'' \<mapsto> PyStr ''off'', KStr ''state'' \<mapsto> PyStr ''off''] (PyInt 0) 0 =
     (Inr (), [KStr ''speed'' \<mapsto> PyStr ''auto'', KStr ''state'' \<mapsto> PyStr ''off''],
      [Info ''Fan speed: %s'' [PyInt 0]])"
  using fan_speed_mode_auto_silent
    [of 0 "[KStr ''speed'' \<mapsto> PyStr ''off'', KStr ''state'' \<mapsto> PyStr ''off'']" "PyInt 0"]
  by (simp add: speed_lookup fun_upd_twist)

text \<open>
  C3, as the code has it. The translator has no bound guard: the raw value goes straight
  into the positional lookup. For every raw value below -5 or above 4 the lookup itself
  faults with \<^verbatim>\<open>IndexError\<close>, after the first log line and before any cache write or
  publication: nothing is published and the cache is unchanged. A raw value from -5 to -1
  is no fault: Python counts it from the end of the enumeration, and the handler goes on
  as for the value plus five.
\<close>

theorem fan_speed_mode_unguarded:
  "(v < -5 \<or> 4 < v \<longrightarrow>
      fan_speed_mode c a v = (Inl IndexError, c, [Info ''Fan speed: %s'' [PyInt v]]))
   \<and> (-5 \<le> v \<and> v < 0 \<longrightarrow>
        list_getitem SPEED_VALUES v = list_getitem SPEED_VALUES (v + 5)
        \<and> fst (fan_speed_mode c a v) = Inr ())"
proof -
  have "v < -5 \<or> v = -5 \<or> v = -4 \<or> v = -3 \<or> v = -2 \<or> v = -1 \<or> 0 \<le> v"
    by arith
  then show ?thesis
    by (elim disjE) (auto simp: fan_speed_mode_def speed_lookup Let_def split: prod.splits)
qed

theorem fan_speed_mode_unguarded_witness:
  "fan_speed_mode Map.empty (PyInt 0) 7 = (Inl IndexError, Map.empty, [Info ''Fan speed: %s'' [PyInt 7]])
   \<and> fst (fan_speed_mode Map.empty (PyInt 0) (-1)) = Inr ()"
  using fan_speed_mode_unguarded [of 7 Map.empty "PyInt 0"]
    fan_speed_mode_unguarded [of "-1" Map.empty "PyInt 0"]
  by simp

text \<open>
  The claim as written fails at the raw value 5: the handler does not reject it before
  the lookup, the lookup faults.
\<close>

theorem fan_speed_mode_lookup_faults:
  "fan_speed_mode Map.empty (PyInt 0) 5 =
     (Inl IndexError, Map.empty, [Info ''Fan speed: %s'' [PyInt 5]])"
  by (simp add: fan_speed_mode_error speed_lookup)

text \<open>
  C1, as the code has it. For a fan-speed event whose raw value resolves to a speed: the
  cached \<^verbatim>\<open>"state"\<close> is set to \<^verbatim>\<open>off\<close>, with one retained \<^verbatim>\<open>state=off\<close> publication, exactly
  when the resolved speed is \<^verbatim>\<open>off\<close>, and that on every such event, whatever speed was
  cached before. It is set to \<^verbatim>\<open>on\<close>, with one retained \<^verbatim>\<open>state=on\<close> publication, exactly
  on the rising edge: the resolved speed is \<^verbatim>\<open>low\<close>, \<^verbatim>\<open>medium\<close> or \<^verbatim>\<open>high\<close> and the cached
  speed is absent or \<^verbatim>\<open>off\<close>. When the cached speed is already \<^verbatim>\<open>auto\<close>, \<^verbatim>\<open>low\<close>, \<^verbatim>\<open>medium\<close>
  or \<^verbatim>\<open>high\<close>, a resolved \<^verbatim>\<open>low\<close>, \<^verbatim>\<open>medium\<close> or \<^verbatim>\<open>high\<close> leaves \<^verbatim>\<open>"state"\<close> alone and
  publishes nothing on the state topic; so does a resolved \<^verbatim>\<open>auto\<close>. The cached speed
  becomes the resolved speed in every case.
\<close>

theorem fan_speed_mode_state_edges:
  "list_getitem SPEED_VALUES v = Inr speed \<and> fan_speed_mode c a v = (r, c', out) \<longrightarrow>
     (speed = ''off'' \<longrightarrow>
        c' (KStr ''state'') = Some (PyStr ''off'')
        \<and> count_list out (Publish TOPIC_FAN_STATE (PyStr ''off'') True) = 1
        \<and> Publish TOPIC_FAN_STATE (PyStr ''on'') True \<notin> set out)
     \<and> (speed \<in> {''low'', ''medium'', ''high''}
          \<and> (c (KStr ''speed'') = None \<or> c (KStr ''speed'') = Some (PyStr ''off'')) \<longrightarrow>
        c' (KStr ''state'') = Some (PyStr ''on'')
        \<and> count_list out (Publish TOPIC_FAN_STATE (PyStr ''on'') True) = 1
        \<and> Publish TOPIC_FAN_STATE (PyStr ''off'') True \<notin> set out)
     \<and> (speed \<in> {''low'', ''medium'', ''high''}
          \<and> (\<exists>p \<in> {''auto'', ''low'', ''medium'', ''high''}. c (KStr ''speed'') = Some (PyStr p)) \<longrightarrow>
        c' (KStr ''state'') = c (KStr ''state'')
        \<and> (\<forall>payload retain. Publish TOPIC_FAN_STATE payload retain \<notin> set out))
     \<and> (speed = ''auto'' \<longrightarrow>
        c' (KStr ''state'') = c (KStr ''state'')
        \<and> (\<forall>payload retain. Publish TOPIC_FAN_STATE payload retain \<notin> set out))
     \<and> c' (KStr ''speed'') = Some (PyStr speed)"
proof (intro impI, elim conjE)
  assume look: "list_getitem SPEED_VALUES v = Inr speed"
    and run: "fan_speed_mode c a v = (r, c', out)"
  show "(speed = ''off'' \<longrightarrow>
        c' (KStr ''state'') = Some (PyStr ''off'')
        \<and> count_list out (Publish TOPIC_FAN_STATE (PyStr ''off'') True) = 1
        \<and> Publish TOPIC_FAN_STATE (PyStr ''on'') True \<notin> set out)
     \<and> (speed \<in> {''low'', ''medium'', ''high''}
          \<and> (c (KStr ''speed'') = None \<or> c (KStr ''speed'') = Some (PyStr ''off'')) \<longrightarrow>
        c' (KStr ''state'') = Some (PyStr ''on'')
        \<and> count_list out (Publish TOPIC_FAN_STATE (PyStr ''on'') True) = 1
        \<and> Publish TOPIC_FAN_STATE (PyStr ''off'') True \<notin> set out)
     \<and> (speed \<in> {''low'', ''medium'', ''high''}
          \<and> (\<exists>p \<in> {''auto'', ''low'', ''medium'', ''high''}. c (KStr ''speed'') = Some (PyStr p)) \<longrightarrow>
        c' (KStr ''state'') = c (KStr ''state'')
        \<and> (\<forall>payload retain. Publish TOPIC_FAN_STATE payload retain \<notin> set out))
     \<and> (speed = ''auto'' \<longrightarrow>
        c' (KStr ''state'') = c (KStr ''state'')
        \<and> (\<forall>payload retain. Publish TOPIC_FAN_STATE payload retain \<notin> set out))
     \<and> c' (KStr ''speed'') = Some (PyStr speed)"
  proof (intro conjI impI)
    assume "speed = ''off''"
    with look run have *: "c' = c(KStr ''state'' \<mapsto> PyStr ''off'', KStr ''speed'' \<mapsto> PyStr ''off'')"
      "out = [Info ''Fan speed: %s'' [PyInt v],
       Info ''Publish fan state: {%s/%s}'' [PyStr TOPIC_FAN_STATE, PyStr ''off''],
       Publish TOPIC_FAN_STATE (PyStr ''off'') True]"
      by (simp_all add: fan_speed_mode_off)
    show "c' (KStr ''state'') = Some (PyStr ''off'')" by (simp add: *)
    show "count_list out (Publish TOPIC_FAN_STATE (PyStr ''off'') True) = 1" by (simp add: *)
    show "Publish TOPIC_FAN_STATE (PyStr ''on'') True \<notin> set out" by (simp add: *)
  next
    assume h: "speed \<in> {''low'', ''medium'', ''high''}
          \<and> (c (KStr ''speed'') = None \<or> c (KStr ''speed'') = Some (PyStr ''off''))"
    then have "speed \<noteq> ''off''" "speed \<noteq> ''auto''"
      "\<not> truthy (c (KStr ''speed'')) \<or> c (KStr ''speed'') = Some (PyStr ''off'')"
      by auto
    with fan_speed_mode_rising [of v speed c a] look run
    have *: "c' = c(KStr ''state'' \<mapsto> PyStr ''on'', KStr ''speed'' \<mapsto> PyStr speed)"
      "out = [Info ''Fan speed: %s'' [PyInt v],
       Info ''Publish fan state: {%s/%s}'' [PyStr TOPIC_FAN_STATE, PyStr ''on''],
       Publish TOPIC_FAN_STATE (PyStr ''on'') True,
       Info ''Publish fan state: {%s/%s}'' [PyStr TOPIC_FAN_SPEED, PyStr speed],
       Publish TOPIC_FAN_SPEED (PyStr speed) False]"
      by simp_all
    show "c' (KStr ''state'') = Some (PyStr ''on'')" by (simp add: *)
    show "count_list out (Publish TOPIC_FAN_STATE (PyStr ''on'') True) = 1"
      by (simp add: * topics_differ)
    show "Publish TOPIC_FAN_STATE (PyStr ''off'') True \<notin> set out"
      by (simp add: * topics_differ)
  next
    assume h: "speed \<in> {''low'', ''medium'', ''high''}
          \<and> (\<exists>p \<in> {''auto'', ''low'', ''medium'', ''high''}. c (KStr ''speed'') = Some (PyStr p))"
    then have "speed \<noteq> ''off''" "speed \<noteq> ''auto''"
      "truthy (c (KStr ''speed''))" "c (KStr ''speed'') \<noteq> Some (PyStr ''off'')"
      by auto
    with fan_speed_mode_running [of v speed c a] look run
    have *: "c' = c(KStr ''speed'' \<mapsto> PyStr speed)"
      "out = [Info ''Fan speed: %s'' [PyInt v],
       Info ''Publish fan state: {%s/%s}'' [PyStr TOPIC_FAN_SPEED, PyStr speed],
       Publish TOPIC_FAN_SPEED (PyStr speed) False]"
      by simp_all
    show "c' (KStr ''state'') = c (KStr ''state'')" by (simp add: *)
    show "\<forall>payload retain. Publish TOPIC_FAN_STATE payload retain \<notin> set out"
      by (simp add: * topics_differ)
  next
    assume "speed = ''auto''"
    with look run have *: "c' = c(KStr ''speed'' \<mapsto> PyStr ''auto'')"
      "out = [Info ''Fan speed: %s'' [PyInt v]]"
      by (simp_all add: fan_speed_mode_auto)
    show "c' (KStr ''state'') = c (KStr ''state'')" by (simp add: *)
    show "\<forall>payload retain. Publish TOPIC_FAN_STATE payload retain \<notin> set out"
      by (simp add: *)
  next
    show "c' (KStr ''speed'') = Some (PyStr speed)"
      using look run
      by (auto simp: fan_speed_mode_def Let_def split: if_splits prod.splits)
  qed
qed

theorem fan_speed_mode_state_edges_witness:
  "list_getitem SPEED_VALUES 2 = Inr ''low''
   \<and> fst (snd (fan_speed_mode [KStr ''speed'' \<mapsto> PyStr ''off''] (PyInt 0) 2)) (KStr ''state'')
     = Some (PyStr ''on'')
   \<and> count_list (snd (snd (fan_speed_mode [KStr ''speed'' \<mapsto> PyStr ''off''] (PyInt 0) 2)))
       (Publish TOPIC_FAN_STATE (PyStr ''on'') True) = 1"
  using fan_speed_mode_state_edges
    [of 2 "''low''" "[KStr ''speed'' \<mapsto> PyStr ''off'']" "PyInt 0"
        "fst (fan_speed_mode [KStr ''speed'' \<mapsto> PyStr ''off''] (PyInt 0) 2)"
        "fst (snd (fan_speed_mode [KStr ''speed'' \<mapsto> PyStr ''off''] (PyInt 0) 2))"
        "snd (snd (fan_speed_mode [KStr ''speed'' \<mapsto> PyStr ''off''] (PyInt 0) 2))"]
  by (simp add: speed_lookup)

text \<open>
  The claim as written says that no state publication is made when the cached speed is
  already a running level. With \<^verbatim>\<open>low\<close> cached, the event \<^verbatim>\<open>off\<close> publishes \<^verbatim>\<open>state=off\<close>.
\<close>

theorem fan_speed_mode_off_from_running:
  "Publish TOPIC_FAN_STATE (PyStr ''off'') True
     \<in> set (snd (snd (fan_speed_mode [KStr ''speed'' \<mapsto> PyStr ''low''] (PyInt 0) 1)))"
  by (simp add: fan_speed_mode_off speed_lookup)

text \<open>
  C8, as the code has it. From any cache, feeding \<^verbatim>\<open>off, low\<close> (raw 1, 2) publishes
  \<^verbatim>\<open>state=on\<close> exactly once and \<^verbatim>\<open>speed=low\<close> exactly once. Feeding \<^verbatim>\<open>low, medium\<close>
  (raw 2, 3) publishes \<^verbatim>\<open>speed=medium\<close> exactly once; it publishes \<^verbatim>\<open>state=on\<close> once when
  the speed cached before the sequence is absent or \<^verbatim>\<open>off\<close> (the \<^verbatim>\<open>low\<close> event is then the
  rising edge), and zero times otherwise. The \<^verbatim>\<open>medium\<close> event itself never publishes
  \<^verbatim>\<open>state=on\<close>.
\<close>

theorem fan_speed_sequences:
  "count_list (snd (feed (\<lambda>c. fan_speed_mode c a) c [1, 2]))
       (Publish TOPIC_FAN_STATE (PyStr ''on'') True) = 1
   \<and> count_list (snd (feed (\<lambda>c. fan_speed_mode c a) c [1, 2]))
       (Publish TOPIC_FAN_SPEED (PyStr ''low'') False) = 1
   \<and> count_list (snd (feed (\<lambda>c. fan_speed_mode c a) c [2, 3]))
       (Publish TOPIC_FAN_SPEED (PyStr ''medium'') False) = 1
   \<and> count_list (snd (feed (\<lambda>c. fan_speed_mode c a) c [2, 3]))
       (Publish TOPIC_FAN_STATE (PyStr ''on'') True) =
         (if \<not> truthy (c (KStr ''speed'')) \<or> c (KStr ''speed'') = Some (PyStr ''off'')
          then 1 else 0)
   \<and> count_list (snd (snd (fan_speed_mode (fst (feed (\<lambda>c. fan_speed_mode c a) c [2])) a 3)))
       (Publish TOPIC_FAN_STATE (PyStr ''on'') True) = 0"
proof -
  have off: "fan_speed_mode c a 1 =
     (Inr (), c(KStr ''state'' \<mapsto> PyStr ''off'', KStr ''speed'' \<mapsto> PyStr ''off''),
      [Info ''Fan speed: %s'' [PyInt 1],
       Info ''Publish fan state: {%s/%s}'' [PyStr TOPIC_FAN_STATE, PyStr ''off''],
       Publish TOPIC_FAN_STATE (PyStr ''off'') True])"
    by (simp add: fan_speed_mode_off speed_lookup)
  have low_after_off: "fan_speed_mode
       (c(KStr ''state'' \<mapsto> PyStr ''off'', KStr ''speed'' \<mapsto> PyStr ''off'')) a 2 =
     (Inr (), c(KStr ''state'' \<mapsto> PyStr ''on'', KStr ''speed'' \<mapsto> PyStr ''low''),
      [Info ''Fan speed: %s'' [PyInt 2],
       Info ''Publish fan state: {%s/%s}'' [PyStr TOPIC_FAN_STATE, PyStr ''on''],
       Publish TOPIC_FAN_STATE (PyStr ''on'') True,
       Info ''Publish fan state: {%s/%s}'' [PyStr TOPIC_FAN_SPEED, PyStr ''low''],
       Publish TOPIC_FAN_SPEED (PyStr ''low'') False])"
    by (simp add: fan_speed_mode_rising speed_lookup)
  have med: "\<And>d. d (KStr ''speed'') = Some (PyStr ''low'') \<Longrightarrow>
      snd (snd (fan_speed_mode d a 3)) =
        [Info ''Fan speed: %s'' [PyInt 3],
         Info ''Publish fan state: {%s/%s}'' [PyStr TOPIC_FAN_SPEED, PyStr ''medium''],
         Publish TOPIC_FAN_SPEED (PyStr ''medium'') False]"
    by (simp add: fan_speed_mode_running speed_lookup)
  have low_speed: "fst (snd (fan_speed_mode c a 2)) (KStr ''speed'') = Some (PyStr ''low'')"
    by (simp add: fan_speed_mode_def speed_lookup Let_def split: prod.splits)
  have low_out: "snd (snd (fan_speed_mode c a 2)) =
     (if \<not> truthy (c (KStr ''speed'')) \<or> c (KStr ''speed'') = Some (PyStr ''off'')
      then [Info ''Fan speed: %s'' [PyInt 2],
            Info ''Publish fan state: {%s/%s}'' [PyStr TOPIC_FAN_STATE, PyStr ''on''],
            Publish TOPIC_FAN_STATE (PyStr ''on'') True,
            Info ''Publish fan state: {%s/%s}'' [PyStr TOPIC_FAN_SPEED, PyStr ''low''],
            Publish TOPIC_FAN_SPEED (PyStr ''low'') False]
      else [Info ''Fan speed: %s'' [PyInt 2],
            Info ''Publish fan state: {%s/%s}'' [PyStr TOPIC_FAN_SPEED, PyStr ''low''],
            Publish TOPIC_FAN_SPEED (PyStr ''low'') False])"
    by (simp add: fan_speed_mode_def speed_lookup)
  have seq1: "snd (feed (\<lambda>c. fan_speed_mode c a) c [1, 2]) =
      snd (snd (fan_speed_mode c a 1))
      @ snd (snd (fan_speed_mode (fst (snd (fan_speed_mode c a 1))) a 2))"
    by (simp split: prod.splits)
  have seq2: "snd (feed (\<lambda>c. fan_speed_mode c a) c [2, 3]) =
      snd (snd (fan_speed_mode c a 2))
      @ snd (snd (fan_speed_mode (fst (snd (fan_speed_mode c a 2))) a 3))"
    by (simp split: prod.splits)
  have first: "fst (feed (\<lambda>c. fan_speed_mode c a) c [2]) = fst (snd (fan_speed_mode c a 2))"
    by (simp split: prod.splits)
  have med_after_low: "snd (snd (fan_speed_mode (fst (snd (fan_speed_mode c a 2))) a 3)) =
        [Info ''Fan speed: %s'' [PyInt 3],
         Info ''Publish fan state: {%s/%s}'' [PyStr TOPIC_FAN_SPEED, PyStr ''medium''],
         Publish TOPIC_FAN_SPEED (PyStr ''medium'') False]"
    using low_speed by (rule med)
  show ?thesis
    unfolding seq1 seq2 first med_after_low low_out
    by (simp add: off low_after_off topics_differ)
qed

theorem fan_speed_sequences_witness:
  "count_list (snd (feed (\<lambda>c. fan_speed_mode c (PyInt 0))
       [KStr ''speed'' \<mapsto> PyStr ''low''] [2, 3]))
     (Publish TOPIC_FAN_STATE (PyStr ''on'') True) = 0
   \<and> count_list (snd (feed (\<lambda>c. fan_speed_mode c (PyInt 0)) Map.empty [1, 2]))
       (Publish TOPIC_FAN_STATE (PyStr ''on'') True) = 1"
  using fan_speed_sequences [of "PyInt 0" "[KStr ''speed'' \<mapsto> PyStr ''low'']"]
    fan_speed_sequences [of "PyInt 0" Map.empty]
  by simp

text \<open>
  The claim as written gives zero \<^verbatim>\<open>state=on\<close> publications for \<^verbatim>\<open>low, medium\<close>. On the empty
  cache of a new handler there is one, made by the \<^verbatim>\<open>low\<close> event.
\<close>

theorem low_medium_on_fresh_cache:
  "count_list (snd (feed (\<lambda>c. fan_speed_mode c (PyInt 0)) Map.empty [2, 3]))
     (Publish TOPIC_FAN_STATE (PyStr ''on'') True) = 1"
  by (simp add: fan_speed_mode_rising fan_speed_mode_running speed_lookup topics_differ)

section \<open>The change-detection cache\<close>

lemma feed_append:
  "feed h c (xs @ ys) =
     (fst (feed h (fst (feed h c xs)) ys),
      snd (feed h c xs) @ snd (feed h (fst (feed h c xs)) ys))"
  by (induction xs arbitrary: c) (auto split: prod.splits)

lemma decode_display_data_logs:
  "decode_display_data data = Inr logs \<Longrightarrow>
   logs = [] \<or> (\<exists>s. logs = [Info ''Segments: [%s]'' [PyStr s]])"
  by (auto simp: decode_display_data_def split: if_splits sum.splits)

lemma event_hit: "c (KInt cmd) = Some (PyBytes data) \<Longrightarrow> event c (cmd, data) = (Inr (), c, [])"
  by (simp add: event_def)

lemma event_miss:
  assumes "c (KInt cmd) \<noteq> Some (PyBytes data)"
  shows "\<exists>r rest. event c (cmd, data) =
           (r, c(KInt cmd \<mapsto> PyBytes data),
            Info ''Msg %#x: [%s]'' [PyInt cmd, PyBytes data] # rest)
         \<and> Info ''Msg %#x: [%s]'' [PyInt cmd, PyBytes data] \<notin> set rest
         \<and> (cmd \<noteq> 0x3c \<longrightarrow> r = Inr () \<and> rest = [])"
proof (cases "cmd = 0x3c")
  case False
  with assms show ?thesis by (simp add: event_def)
next
  case True
  show ?thesis
  proof (cases "decode_display_data data")
    case (Inl e)
    with True assms show ?thesis by (simp add: event_def)
  next
    case (Inr logs)
    from decode_display_data_logs [OF Inr] Inr True assms show ?thesis
      by (auto simp: event_def)
  qed
qed

lemma event_stores: "fst (snd (event c (cmd, data))) (KInt cmd) = Some (PyBytes data)"
  using event_hit [of c cmd data] event_miss [of c cmd data]
  by (cases "c (KInt cmd) = Some (PyBytes data)") auto

lemma event_no_publish: "Publish t p r \<notin> set (snd (snd (event c ev)))"
proof -
  obtain cmd data where ev: "ev = (cmd, data)" by (cases ev)
  show ?thesis
  proof (cases "decode_display_data data")
    case (Inl e)
    with ev show ?thesis by (simp add: event_def Let_def)
  next
    case (Inr logs)
    from decode_display_data_logs [OF Inr] Inr ev show ?thesis
      by (auto simp: event_def Let_def)
  qed
qed

text \<open>
  C2, as the code has it. Only the raw frames handled by \<^verbatim>\<open>event\<close> pass through the
  change-detection cache, and \<^verbatim>\<open>event\<close> publishes nothing: what it passes on is a log
  record. A frame equal to the payload cached for its command id is dropped, the handler
  returns with no effect and the cache as it was. A frame that differs from the cached
  payload, or whose command id has no cached payload, is stored and logged exactly once
  (one \<^verbatim>\<open>Msg\<close> record, followed for a display frame by what the decoder does); so in every
  sequence of frames an immediate repetition adds nothing. The handlers that publish do
  not de-duplicate. Those for the outside temperature and the two airflows neither read nor
  write the cache: each event is published exactly once, a repeated value again. The
  fan-speed handler caches the speed but does not compare with it: a \<^verbatim>\<open>low\<close>, \<^verbatim>\<open>medium\<close> or
  \<^verbatim>\<open>high\<close> equal to the cached speed is published again on the speed topic, and an \<^verbatim>\<open>off\<close>
  equal to the cached speed is published again on the state topic.
\<close>

theorem dedup_raw_frames_only:
  "(c (KInt cmd) = Some (PyBytes data) \<longrightarrow> event c (cmd, data) = (Inr (), c, []))
   \<and> (c (KInt cmd) \<noteq> Some (PyBytes data) \<longrightarrow>
        (\<exists>r rest. event c (cmd, data) =
             (r, c(KInt cmd \<mapsto> PyBytes data),
              Info ''Msg %#x: [%s]'' [PyInt cmd, PyBytes data] # rest)
           \<and> Info ''Msg %#x: [%s]'' [PyInt cmd, PyBytes data] \<notin> set rest
           \<and> (cmd \<noteq> 0x3c \<longrightarrow> r = Inr () \<and> rest = [])))
   \<and> snd (feed event c (evs @ [(cmd, data), (cmd, data)])) = snd (feed event c (evs @ [(cmd, data)]))
   \<and> (\<forall>t p r. Publish t p r \<notin> set (snd (snd (event c (cmd, data)))))
   \<and> feed (\<lambda>c. temp_outside_event c a) c [val, val] =
       (c, snd (snd (temp_outside_event c a val)) @ snd (snd (temp_outside_event c a val)))
   \<and> count_list (snd (snd (temp_outside_event c a val))) (Publish TOPIC_TEMP_OUTSIDE val False) = 1
   \<and> feed (\<lambda>c. airflow_exhaust c a) c [val, val] =
       (c, snd (snd (airflow_exhaust c a val)) @ snd (snd (airflow_exhaust c a val)))
   \<and> count_list (snd (snd (airflow_exhaust c a val))) (Publish TOPIC_AIRFLOW_EXHAUST val False) = 1
   \<and> feed (\<lambda>c. airflow_supply c a) c [val, val] =
       (c, snd (snd (airflow_supply c a val)) @ snd (snd (airflow_supply c a val)))
   \<and> count_list (snd (snd (airflow_supply c a val))) (Publish TOPIC_AIRFLOW_SUPPLY val False) = 1
   \<and> (list_getitem SPEED_VALUES v = Inr s \<and> s \<in> {''low'', ''medium'', ''high''}
        \<and> c (KStr ''speed'') = Some (PyStr s) \<longrightarrow>
        fan_speed_mode c a v =
          (Inr (), c,
           [Info ''Fan speed: %s'' [PyInt v],
            Info ''Publish fan state: {%s/%s}'' [PyStr TOPIC_FAN_SPEED, PyStr s],
            Publish TOPIC_FAN_SPEED (PyStr s) False]))
   \<and> (list_getitem SPEED_VALUES v = Inr ''off''
        \<and> c (KStr ''speed'') = Some (PyStr ''off'') \<and> c (KStr ''state'') = Some (PyStr ''off'') \<longrightarrow>
        fan_speed_mode c a v =
          (Inr (), c,
           [Info ''Fan speed: %s'' [PyInt v],
            Info ''Publish fan state: {%s/%s}'' [PyStr TOPIC_FAN_STATE, PyStr ''off''],
            Publish TOPIC_FAN_STATE (PyStr ''off'') True]))"
proof -
  have twice: "snd (feed event d [(cmd, data), (cmd, data)]) = snd (feed event d [(cmd, data)])" for d
  proof -
    obtain r d' out where e: "event d (cmd, data) = (r, d', out)"
      by (cases "event d (cmd, data)") auto
    with event_stores [of d cmd data] have "d' (KInt cmd) = Some (PyBytes data)" by simp
    then have "event d' (cmd, data) = (Inr (), d', [])" by (rule event_hit)
    with e show ?thesis by simp
  qed
  have seq: "snd (feed event c (evs @ [(cmd, data), (cmd, data)])) = snd (feed event c (evs @ [(cmd, data)]))"
    by (simp only: feed_append snd_conv twice)
  have raw: "(c (KInt cmd) = Some (PyBytes data) \<longrightarrow> event c (cmd, data) = (Inr (), c, []))
   \<and> (c (KInt cmd) \<noteq> Some (PyBytes data) \<longrightarrow>
        (\<exists>r rest. event c (cmd, data) =
             (r, c(KInt cmd \<mapsto> PyBytes data),
              Info ''Msg %#x: [%s]'' [PyInt cmd, PyBytes data] # rest)
           \<and> Info ''Msg %#x: [%s]'' [PyInt cmd, PyBytes data] \<notin> set rest
           \<and> (cmd \<noteq> 0x3c \<longrightarrow> r = Inr () \<and> rest = [])))"
    using event_hit [of c cmd data] event_miss [of c cmd data] by blast
  have nopub: "\<forall>t p r. Publish t p r \<notin> set (snd (snd (event c (cmd, data))))"
    by (simp add: event_no_publish)
  have cooked: "feed (\<lambda>c. temp_outside_event c a) c [val, val] =
       (c, snd (snd (temp_outside_event c a val)) @ snd (snd (temp_outside_event c a val)))"
    "count_list (snd (snd (temp_outside_event c a val))) (Publish TOPIC_TEMP_OUTSIDE val False) = 1"
    "feed (\<lambda>c. airflow_exhaust c a) c [val, val] =
       (c, snd (snd (airflow_exhaust c a val)) @ snd (snd (airflow_exhaust c a val)))"
    "count_list (snd (snd (airflow_exhaust c a val))) (Publish TOPIC_AIRFLOW_EXHAUST val False) = 1"
    "feed (\<lambda>c. airflow_supply c a) c [val, val] =
       (c, snd (snd (airflow_supply c a val)) @ snd (snd (airflow_supply c a val)))"
    "count_list (snd (snd (airflow_supply c a val))) (Publish TOPIC_AIRFLOW_SUPPLY val False) = 1"
    by (simp_all add: temp_outside_event_def airflow_exhaust_def airflow_supply_def)
  have same: "c (k) = Some x \<Longrightarrow> c(k \<mapsto> x) = c" for k x
    by (rule map_upd_triv)
  have speed: "list_getitem SPEED_VALUES v = Inr s \<and> s \<in> {''low'', ''medium'', ''high''}
        \<and> c (KStr ''speed'') = Some (PyStr s) \<longrightarrow>
        fan_speed_mode c a v =
          (Inr (), c,
           [Info ''Fan speed: %s'' [PyInt v],
            Info ''Publish fan state: {%s/%s}'' [PyStr TOPIC_FAN_SPEED, PyStr s],
            Publish TOPIC_FAN_SPEED (PyStr s) False])"
  proof
    assume h: "list_getitem SPEED_VALUES v = Inr s \<and> s \<in> {''low'', ''medium'', ''high''}
        \<and> c (KStr ''speed'') = Some (PyStr s)"
    then have "s \<noteq> ''off''" "s \<noteq> ''auto''" "truthy (c (KStr ''speed''))"
      "c (KStr ''speed'') \<noteq> Some (PyStr ''off'')"
      by auto
    with fan_speed_mode_running [of v s c a] h same [of "KStr ''speed''" "PyStr s"]
    show "fan_speed_mode c a v =
          (Inr (), c,
           [Info ''Fan speed: %s'' [PyInt v],
            Info ''Publish fan state: {%s/%s}'' [PyStr TOPIC_FAN_SPEED, PyStr s],
            Publish TOPIC_FAN_SPEED (PyStr s) False])"
      by simp
  qed
  have off: "list_getitem SPEED_VALUES v = Inr ''off''
        \<and> c (KStr ''speed'') = Some (PyStr ''off'') \<and> c (KStr ''state'') = Some (PyStr ''off'') \<longrightarrow>
        fan_speed_mode c a v =
          (Inr (), c,
           [Info ''Fan speed: %s'' [PyInt v],
            Info ''Publish fan state: {%s/%s}'' [PyStr TOPIC_FAN_STATE, PyStr ''off''],
            Publish TOPIC_FAN_STATE (PyStr ''off'') True])"
  proof
    assume h: "list_getitem SPEED_VALUES v = Inr ''off''
        \<and> c (KStr ''speed'') = Some (PyStr ''off'') \<and> c (KStr ''state'') = Some (PyStr ''off'')"
    then have "c(KStr ''state'' \<mapsto> PyStr ''off'', KStr ''speed'' \<mapsto> PyStr ''off'') = c"
      by (auto simp: fun_eq_iff)
    with fan_speed_mode_off [of v c a] h
    show "fan_speed_mode c a v =
          (Inr (), c,
           [Info ''Fan speed: %s'' [PyInt v],
            Info ''Publish fan state: {%s/%s}'' [PyStr TOPIC_FAN_STATE, PyStr ''off''],
            Publish TOPIC_FAN_STATE (PyStr ''off'') True])"
      by simp
  qed
  from raw seq nopub cooked speed off show ?thesis
    by blast
qed

theorem dedup_raw_frames_only_witness:
  "event [KInt 0xce \<mapsto> PyBytes [1, 2]] (0xce, [1, 2]) = (Inr (), [KInt 0xce \<mapsto> PyBytes [1, 2]], [])
   \<and> event [KInt 0xce \<mapsto> PyBytes [1, 2]] (0xce, [1, 3]) =
       (Inr (), [KInt 0xce \<mapsto> PyBytes [1, 3]], [Info ''Msg %#x: [%s]'' [PyInt 0xce, PyBytes [1, 3]]])
   \<and> event Map.empty (0xce, [1, 3]) =
       (Inr (), [KInt 0xce \<mapsto> PyBytes [1, 3]], [Info ''Msg %#x: [%s]'' [PyInt 0xce, PyBytes [1, 3]]])
   \<and> list_getitem SPEED_VALUES 3 = Inr ''medium''
   \<and> fan_speed_mode [KStr ''speed'' \<mapsto> PyStr ''medium''] (PyInt 0) 3 =
       (Inr (), [KStr ''speed'' \<mapsto> PyStr ''medium''],
        [Info ''Fan speed: %s'' [PyInt 3],
         Info ''Publish fan state: {%s/%s}'' [PyStr TOPIC_FAN_SPEED, PyStr ''medium''],
         Publish TOPIC_FAN_SPEED (PyStr ''medium'') False])"
  using dedup_raw_frames_only [of "[KInt 0xce \<mapsto> PyBytes [1, 2]]" "0xce" "[1, 2]"]
    dedup_raw_frames_only [of "[KInt 0xce \<mapsto> PyBytes [1, 2]]" "0xce" "[1, 3]"]
    dedup_raw_frames_only [of Map.empty "0xce" "[1, 3]"]
    dedup_raw_frames_only [of "[KStr ''speed'' \<mapsto> PyStr ''medium'']" 0 "[]" "[]" "PyInt 0" "PyInt 0" 3 "''medium''"]
  by (auto simp: speed_lookup)

text \<open>
  The claim as written has an event equal to the cached value never republished. With
  \<^verbatim>\<open>low\<close> cached under \<^verbatim>\<open>"speed"\<close>, a fan-speed event resolving to \<^verbatim>\<open>low\<close> publishes
  \<^verbatim>\<open>speed=low\<close>; and the same outside temperature fed twice is published twice.
\<close>

theorem equal_value_is_republished:
  "Publish TOPIC_FAN_SPEED (PyStr ''low'') False
     \<in> set (snd (snd (fan_speed_mode [KStr ''speed'' \<mapsto> PyStr ''low''] (PyInt 0) 2)))
   \<and> count_list (snd (feed (\<lambda>c. temp_outside_event c (PyInt 0)) Map.empty [PyInt 21, PyInt 21]))
       (Publish TOPIC_TEMP_OUTSIDE (PyInt 21) False) = 2"
  by (simp add: fan_speed_mode_running speed_lookup temp_outside_event_def)

section \<open>Failures of the segment decoder\<close>

text \<open>The only way a cell fails is the assertion on its digit pattern.\<close>

lemma decode_cell_Inl:
  "decode_cell pos val = Inl e \<longleftrightarrow>
     e = AssertionError \<and> (\<exists>d. computed_digit pos val = Some d \<and> map_of ssd_chr d = None)"
proof -
  consider "pos = 1" | "2 \<le> pos \<and> pos \<le> 8" | "pos = 9" | "pos = 0 \<or> 9 < pos"
    by arith
  then show ?thesis
  proof cases
    case 1
    then show ?thesis
      by (auto simp: decode_cell_def computed_digit_def ssd_lookup_def split: option.splits)
  next
    case 2
    then show ?thesis
      by (auto simp: decode_cell_def computed_digit_def ssd_lookup_def split: option.splits)
  next
    case 3
    then show ?thesis
      by (auto simp: decode_cell_def computed_digit_def ssd_lookup_def split: option.splits)
  next
    case 4
    then show ?thesis
      by (auto simp: decode_cell_def computed_digit_def)
  qed
qed

lemma decode_cells_Inl:
  "decode_cells ps acc = Inl e \<longleftrightarrow>
     e = AssertionError \<and> (\<exists>p \<in> set ps. decode_cell (fst p) (snd p) = Inl AssertionError)"
proof (induction ps arbitrary: acc)
  case Nil
  then show ?case by simp
next
  case (Cons p ps)
  obtain pos val where p: "p = (pos, val)" by (cases p)
  show ?case
  proof (cases "decode_cell pos val")
    case (Inl e')
    then have "e' = AssertionError" by (simp add: decode_cell_Inl)
    with Inl p show ?thesis by auto
  next
    case (Inr new)
    with p Cons.IH [of "acc @ new"] show ?thesis by auto
  qed
qed

text \<open>\<^verbatim>\<open>enumerate(data)\<close> pairs every position below the length with the byte there.\<close>

lemma in_enumerate:
  "p \<in> set (zip [0..<length data] data) \<longleftrightarrow> fst p < length data \<and> snd p = data ! fst p"
proof
  assume "p \<in> set (zip [0..<length data] data)"
  then obtain i where "i < length data" "p = ([0..<length data] ! i, data ! i)"
    by (auto simp: set_zip)
  then show "fst p < length data \<and> snd p = data ! fst p" by simp
next
  assume h: "fst p < length data \<and> snd p = data ! fst p"
  then have "p = ([0..<length data] ! fst p, data ! fst p) \<and> fst p < min (length [0..<length data]) (length data)"
    by (cases p) simp
  then have "\<exists>i. p = ([0..<length data] ! i, data ! i) \<and> i < min (length [0..<length data]) (length data)"
    by (rule exI)
  then show "p \<in> set (zip [0..<length data] data)"
    unfolding set_zip by blast
qed

lemma decode_display_data_fails:
  assumes "length data = 10"
  shows "decode_display_data data = Inl e \<longleftrightarrow>
     e = AssertionError
     \<and> (\<exists>pos < 10. \<exists>d. computed_digit pos (data ! pos) = Some d \<and> map_of ssd_chr d = None)"
proof -
  have len: "length cc_segments = length data"
    using assms by (simp add: cc_segments_def)
  have "decode_display_data data = Inl e \<longleftrightarrow> decode_cells (zip [0..<length data] data) [] = Inl e"
    using len by (simp add: decode_display_data_def split: sum.splits)
  also have "\<dots> \<longleftrightarrow> e = AssertionError
      \<and> (\<exists>p. (fst p < length data \<and> snd p = data ! fst p)
            \<and> decode_cell (fst p) (snd p) = Inl AssertionError)"
    by (simp add: decode_cells_Inl in_enumerate Bex_def)
  also have "\<dots> \<longleftrightarrow> e = AssertionError
      \<and> (\<exists>pos < 10. decode_cell pos (data ! pos) = Inl AssertionError)"
    using assms by auto
  finally show ?thesis
    by (simp add: decode_cell_Inl)
qed

text \<open>
  C7, as the code has it. For a display bitfield of ten bytes, the number of cells: when
  the digit pattern computed for some cell is not in the segment-to-character table, the
  decoder fails with \<^verbatim>\<open>AssertionError\<close>, never with a default character, and logs
  nothing. The failure ends that call of \<^verbatim>\<open>event\<close> too: \<^verbatim>\<open>event\<close> has stored the frame and
  logged its \<^verbatim>\<open>Msg\<close> record by then, does not catch the error, and hands it to its caller
  in the device library. The same frame arriving again is then dropped by the cache. When
  every computed pattern is in the table the decoder logs the segments. An input of any
  other length has no effect and is no error.
\<close>

theorem decode_display_data_errors:
  "(length data = 10
      \<and> (\<exists>pos < 10. \<exists>d. computed_digit pos (data ! pos) = Some d \<and> map_of ssd_chr d = None) \<longrightarrow>
      decode_display_data data = Inl AssertionError
      \<and> (c (KInt 0x3c) \<noteq> Some (PyBytes data) \<longrightarrow>
           event c (0x3c, data) =
             (Inl AssertionError, c(KInt 0x3c \<mapsto> PyBytes data),
              [Info ''Msg %#x: [%s]'' [PyInt 0x3c, PyBytes data]])
           \<and> event (fst (snd (event c (0x3c, data)))) (0x3c, data) =
               (Inr (), c(KInt 0x3c \<mapsto> PyBytes data), [])))
   \<and> (length data = 10
      \<and> (\<forall>pos < 10. \<forall>d. computed_digit pos (data ! pos) = Some d \<longrightarrow> map_of ssd_chr d \<noteq> None) \<longrightarrow>
      (\<exists>s. decode_display_data data = Inr [Info ''Segments: [%s]'' [PyStr s]]))
   \<and> (length data \<noteq> 10 \<longrightarrow> decode_display_data data = Inr [])"
proof (intro conjI impI)
  assume h: "length data = 10
      \<and> (\<exists>pos < 10. \<exists>d. computed_digit pos (data ! pos) = Some d \<and> map_of ssd_chr d = None)"
  then show fails: "decode_display_data data = Inl AssertionError"
    by (simp add: decode_display_data_fails)
  assume miss: "c (KInt 0x3c) \<noteq> Some (PyBytes data)"
  with fails show first: "event c (0x3c, data) =
             (Inl AssertionError, c(KInt 0x3c \<mapsto> PyBytes data),
              [Info ''Msg %#x: [%s]'' [PyInt 0x3c, PyBytes data]])"
    by (simp add: event_def)
  show "event (fst (snd (event c (0x3c, data)))) (0x3c, data) =
               (Inr (), c(KInt 0x3c \<mapsto> PyBytes data), [])"
    by (simp add: first event_hit)
next
  assume h: "length data = 10
      \<and> (\<forall>pos < 10. \<forall>d. computed_digit pos (data ! pos) = Some d \<longrightarrow> map_of ssd_chr d \<noteq> None)"
  then have "\<And>e. decode_display_data data \<noteq> Inl e"
    by (auto simp: decode_display_data_fails)
  then obtain logs where logs: "decode_display_data data = Inr logs"
    by (cases "decode_display_data data") auto
  moreover have "logs \<noteq> []"
    using logs h by (auto simp: decode_display_data_def cc_segments_def split: sum.splits)
  ultimately show "\<exists>s. decode_display_data data = Inr [Info ''Segments: [%s]'' [PyStr s]]"
    using decode_display_data_logs [of data logs] by auto
next
  assume "length data \<noteq> 10"
  then show "decode_display_data data = Inr []"
    by (auto simp: decode_display_data_def cc_segments_def)
qed

theorem decode_display_data_errors_witness:
  "decode_display_data [0, 1, 0, 0, 0, 0, 0, 0, 0, 0] = Inl AssertionError
   \<and> event Map.empty (0x3c, [0, 1, 0, 0, 0, 0, 0, 0, 0, 0]) =
       (Inl AssertionError, [KInt 0x3c \<mapsto> PyBytes [0, 1, 0, 0, 0, 0, 0, 0, 0, 0]],
        [Info ''Msg %#x: [%s]'' [PyInt 0x3c, PyBytes [0, 1, 0, 0, 0, 0, 0, 0, 0, 0]]])
   \<and> decode_display_data [0, 1, 0] = Inr []"
proof -
  have bad: "computed_digit 1 ([0, 1, 0, 0, 0, 0, 0, 0, 0, 0] ! 1) = Some 0x59 \<and> map_of ssd_chr 0x59 = None"
    by (simp add: computed_digit_def digit_pos1_def ssd_chr_def)
  then have "\<exists>pos < 10. \<exists>d. computed_digit pos ([0, 1, 0, 0, 0, 0, 0, 0, 0, 0] ! pos) = Some d
      \<and> map_of ssd_chr d = None"
    by (intro exI [of _ 1] exI [of _ "0x59"]) simp
  with decode_display_data_errors [of "[0, 1, 0, 0, 0, 0, 0, 0, 0, 0]" Map.empty]
    decode_display_data_errors [of "[0, 1, 0]" Map.empty]
  show ?thesis by simp
qed

text \<open>
  The claim as written has the frame processing that calls the decoder contain the
  failure. \<^verbatim>\<open>event\<close> does not: on a display frame whose cell 1 has the pattern \<^verbatim>\<open>0x59\<close> it
  ends with the assertion error.
\<close>

theorem event_lets_decode_error_out:
  "fst (event Map.empty (0x3c, [0, 1, 0, 0, 0, 0, 0, 0, 0, 0])) = Inl AssertionError"
  by (simp add: event_def decode_display_data_def cc_segments_def upt_rec decode_cell_def
      ssd_lookup_def digit_pos1_def ssd_chr_def lit_def)

section \<open>The cache across a reconnect\<close>

lemma mqtt_setup_ok:
  "mqtt_setup None b = (Inr (), b\<lparr>h_cache := Some Map.empty, attached := True\<rparr>, try_body)"
  by (simp add: mqtt_setup_def try_body_def)

lemma mqtt_setup_before_attach:
  "run_steps None (takeWhile (\<lambda>s. s \<noteq> AddListeners) try_body) b =
     (Inr (), b\<lparr>h_cache := Some Map.empty\<rparr>, takeWhile (\<lambda>s. s \<noteq> AddListeners) try_body)"
  by (simp add: try_body_def)

lemma mqtt_setup_fails:
  assumes "n < 6"
  shows "fst (mqtt_setup (Some n) b) = Inl MqttError
    \<and> AddListeners \<notin> set (snd (snd (mqtt_setup (Some n) b)))
    \<and> attached (fst (snd (mqtt_setup (Some n) b))) = attached b"
proof -
  from assms have "n \<in> {0, 1, 2, 3, 4, 5}"
    by auto
  then show ?thesis
    by (auto simp: mqtt_setup_def try_body_def)
qed

text \<open>
  C4. Whatever the supervisor's state before it (any cache left by the session that was
  lost), a pass through the \<^verbatim>\<open>try\<close> body in which no transport operation fails builds
  the handler, and with it the empty cache, exactly once, before the one step that
  attaches the listeners: at that step the cache is empty and this pass has attached
  nothing yet. A pass in which one of the six transport operations fails attaches no
  listener. So the first raw frame after the session is established is stored and passed
  on, whatever was cached before the loss.
\<close>

theorem mqtt_setup_fresh_cache:
  "mqtt_setup None b = (Inr (), b\<lparr>h_cache := Some Map.empty, attached := True\<rparr>, try_body)
   \<and> count_list try_body NewHandler = 1
   \<and> count_list try_body AddListeners = 1
   \<and> NewHandler \<in> set (takeWhile (\<lambda>s. s \<noteq> AddListeners) try_body)
   \<and> run_steps None (takeWhile (\<lambda>s. s \<noteq> AddListeners) try_body) b =
       (Inr (), b\<lparr>h_cache := Some Map.empty\<rparr>, takeWhile (\<lambda>s. s \<noteq> AddListeners) try_body)
   \<and> (\<forall>n < 6. fst (mqtt_setup (Some n) b) = Inl MqttError
         \<and> AddListeners \<notin> set (snd (snd (mqtt_setup (Some n) b)))
         \<and> attached (fst (snd (mqtt_setup (Some n) b))) = attached b)
   \<and> (\<forall>cmd data. \<exists>r rest.
         event (the (h_cache (fst (snd (mqtt_setup None b))))) (cmd, data) =
           (r, [KInt cmd \<mapsto> PyBytes data],
            Info ''Msg %#x: [%s]'' [PyInt cmd, PyBytes data] # rest))"
proof -
  have fresh: "the (h_cache (fst (snd (mqtt_setup None b)))) = Map.empty"
    by (simp add: mqtt_setup_ok)
  have first: "\<exists>r rest. event Map.empty (cmd, data) =
           (r, [KInt cmd \<mapsto> PyBytes data],
            Info ''Msg %#x: [%s]'' [PyInt cmd, PyBytes data] # rest)" for cmd data
    using event_miss [of Map.empty cmd data] by auto
  have counts: "count_list try_body NewHandler = 1" "count_list try_body AddListeners = 1"
    "NewHandler \<in> set (takeWhile (\<lambda>s. s \<noteq> AddListeners) try_body)"
    by (simp_all add: try_body_def)
  show ?thesis
    unfolding fresh
    using mqtt_setup_ok [of b] mqtt_setup_before_attach [of b] mqtt_setup_fails [of _ b] counts first
    by blast
qed

text \<open>
  A frame that the cache of the lost session would have dropped is passed on by the
  handler of the new session.
\<close>

theorem mqtt_setup_fresh_cache_witness:
  "event [KInt 0xce \<mapsto> PyBytes [1, 2]] (0xce, [1, 2]) =
     (Inr (), [KInt 0xce \<mapsto> PyBytes [1, 2]], [])
   \<and> event (the (h_cache (fst (snd (mqtt_setup None
         \<lparr>h_cache = Some [KInt 0xce \<mapsto> PyBytes [1, 2]], attached = False\<rparr>))))) (0xce, [1, 2]) =
       (Inr (), [KInt 0xce \<mapsto> PyBytes [1, 2]],
        [Info ''Msg %#x: [%s]'' [PyInt 0xce, PyBytes [1, 2]]])
   \<and> fst (mqtt_setup (Some 2) \<lparr>h_cache = None, attached = False\<rparr>) = Inl MqttError"
proof -
  have "(2::nat) < 6" by simp
  with mqtt_setup_fresh_cache [of "\<lparr>h_cache = Some [KInt 0xce \<mapsto> PyBytes [1, 2]], attached = False\<rparr>"]
    mqtt_setup_fresh_cache [of "\<lparr>h_cache = None, attached = False\<rparr>"]
  show ?thesis
    by (simp add: event_def)
qed

section \<open>What is ever cached under the speed key\<close>

text \<open>
  \<^verbatim>\<open>fan_speed_mode\<close> is the only writer of \<^verbatim>\<open>"speed"\<close>, and it stores members of the
  enumeration only; a new handler starts from the empty cache. So the cached speed is
  always absent or one of the five.
\<close>

lemma speed_ok_empty: "speed_ok Map.empty"
  by (simp add: speed_ok_def)

lemma speed_ok_fan_speed_mode:
  assumes "speed_ok c"
  shows "speed_ok (fst (snd (fan_speed_mode c a v)))"
proof (cases "list_getitem SPEED_VALUES v")
  case (Inl e)
  with assms show ?thesis by (simp add: fan_speed_mode_error)
next
  case (Inr s)
  then have "s \<in> {''auto'', ''off'', ''low'', ''medium'', ''high''}"
    by (auto simp: speed_lookup split: if_splits)
  moreover have "fst (snd (fan_speed_mode c a v)) (KStr ''speed'') = Some (PyStr s)"
    using Inr by (auto simp: fan_speed_mode_def Let_def split: if_splits prod.splits)
  ultimately show ?thesis
    by (simp add: speed_ok_def SPEED_VALUES_def)
qed

lemma speed_ok_event:
  assumes "speed_ok c"
  shows "speed_ok (fst (snd (event c ev)))"
proof -
  obtain cmd data where ev: "ev = (cmd, data)" by (cases ev)
  show ?thesis
  proof (cases "c (KInt cmd) = Some (PyBytes data)")
    case True
    with assms ev show ?thesis by (simp add: event_hit)
  next
    case False
    with event_miss [of c cmd data] assms ev show ?thesis
      by (auto simp: speed_ok_def)
  qed
qed

end
